theory Spec2Isabelle
  imports Complex_Main "HOL-Library.Stream" "HOL-Library.Sublist" "HOL-Library.Multiset"
begin

section \<open>Gallery Pro: the gallery state and playback engine\<close>

text \<open>
  A shallow embedding of the classes \<open>GalleryDB\<close>, \<open>GalleryManager\<close>, \<open>Gallery\<close> and
  \<open>App\<close> of the gallery viewer. The DOM is left out: a method is modelled by what it does
  to the fields of the manager, to the object store, to the registry of object URLs and
  to the folder, and by the exception it throws. Whatever the browser decides (permission
  prompts, folder contents, \<open>Math.random\<close>, the clock) is an argument of the model.
\<close>

subsection \<open>JavaScript strings and arrays\<close>

text \<open>\<open>xs[i]\<close> for a number \<open>i\<close>: \<open>undefined\<close> outside the array.\<close>

definition elemAt :: "'a list \<Rightarrow> int \<Rightarrow> 'a option" where
  "elemAt xs i = (if 0 \<le> i \<and> i < int (length xs) then Some (xs ! nat i) else None)"

text \<open>
  \<open>xs.splice(start, 1)\<close> and \<open>xs.splice(start, 0, x)\<close>: a negative start counts from the
  end, and the start is clamped to \<open>0 .. xs.length\<close>.
\<close>

definition spliceStart :: "'a list \<Rightarrow> int \<Rightarrow> nat" where
  "spliceStart xs start =
     (if start < 0 then nat (max (int (length xs) + start) 0)
      else min (nat start) (length xs))"

definition spliceRemove :: "'a list \<Rightarrow> int \<Rightarrow> 'a list" where
  "spliceRemove xs start = take (spliceStart xs start) xs @ drop (Suc (spliceStart xs start)) xs"


text \<open>\<open>s.split(sep)\<close> for a separator of one character; the result is never empty.\<close>

fun split :: "char \<Rightarrow> string \<Rightarrow> string list" where
  "split sep [] = [[]]"
| "split sep (c # cs) =
     (if c = sep then [] # split sep cs
      else (case split sep cs of [] \<Rightarrow> [[c]] | w # ws \<Rightarrow> (c # w) # ws))"

text \<open>\<open>s.toLowerCase()\<close> on the letters of ASCII.\<close>

definition lowerChar :: "char \<Rightarrow> char" where
  "lowerChar c =
     (case map_of (zip ''ABCDEFGHIJKLMNOPQRSTUVWXYZ'' ''abcdefghijklmnopqrstuvwxyz'') c of
        None \<Rightarrow> c | Some d \<Rightarrow> d)"

definition toLowerCase :: "string \<Rightarrow> string" where
  "toLowerCase s = map lowerChar s"

text \<open>\<open>a || b\<close> on values that are a string or \<open>null\<close>: the empty string is falsy too.\<close>

definition orElse :: "string option \<Rightarrow> string option \<Rightarrow> string option" where
  "orElse a b = (case a of None \<Rightarrow> b | Some s \<Rightarrow> if s = [] then b else Some s)"

text \<open>
  \<open>xs.sort(cmp)\<close>: the sort of ECMAScript is stable, so for a consistent comparator its
  result is the one that insertion from the right computes. An element goes in front of
  the first later element that does not have to precede it.
\<close>

fun sortInsert :: "('a \<Rightarrow> 'a \<Rightarrow> int) \<Rightarrow> 'a \<Rightarrow> 'a list \<Rightarrow> 'a list" where
  "sortInsert cmp x [] = [x]"
| "sortInsert cmp x (y # ys) = (if cmp x y \<le> 0 then x # y # ys else y # sortInsert cmp x ys)"

definition sortBy :: "('a \<Rightarrow> 'a \<Rightarrow> int) \<Rightarrow> 'a list \<Rightarrow> 'a list" where
  "sortBy cmp xs = foldr (sortInsert cmp) xs []"

subsection \<open>Math.random\<close>

text \<open>
  \<open>Math.random()\<close> returns a number \<open>r\<close> with \<open>0 \<le> r < 1\<close>. The numbers the program will
  draw are a stream; a draw takes the head. \<open>randomIndex r n\<close> is
  \<open>Math.floor(r * n)\<close>, with the product taken exactly: the rounding of floating point
  numbers is not modelled, and neither is the distribution of the numbers.
\<close>

typedef rand01 = "{r :: rat. 0 \<le> r \<and> r < 1}"
  by (rule exI [of _ 0]) simp

setup_lifting type_definition_rand01

lift_definition randomIndex :: "rand01 \<Rightarrow> nat \<Rightarrow> nat" is
  "\<lambda>r n. nat \<lfloor>r * of_nat n\<rfloor>" .

lift_definition frac :: "nat \<Rightarrow> nat \<Rightarrow> rand01" is
  "\<lambda>a b. if a < b then of_nat a / of_nat b else 0"
  by auto

subsection \<open>Data\<close>

datatype exn = TypeError | Error string | DOMException string

datatype permissionState = granted | denied | prompt

datatype mediaType = Image | Video

text \<open>
  An element of \<open>gallery.media\<close>. The field \<open>file\<close> of the source is the \<open>File\<close> object;
  the program reads nothing of it but \<open>lastModified\<close>. An object URL is a number.
\<close>

record mediaItem =
  mname :: string
  path :: string
  url :: nat
  mtype :: mediaType
  lastModified :: int

text \<open>
  class \<open>Gallery\<close>. The constructor does not set \<open>order\<close>: it is \<open>undefined\<close> (\<open>None\<close>)
  until \<open>createGallery\<close>, \<open>loadFromStorage\<close> or \<open>handleTabDrop\<close> assigns it. A directory
  handle is a number.
\<close>

record gallery =
  gid :: nat
  name :: string
  directoryHandle :: nat
  media :: "mediaItem list"
  isShuffled :: bool
  order :: "int option"

definition Gallery :: "nat \<Rightarrow> string \<Rightarrow> nat \<Rightarrow> gallery" where
  "Gallery i n h =
     \<lparr>gid = i, name = n, directoryHandle = h, media = [], isShuffled = False, order = None\<rparr>"

text \<open>
  A record of the object store, as \<open>saveGallery\<close> writes it. A record written by an older
  version of the program has no \<open>isShuffled\<close> and no \<open>order\<close>.
\<close>

record galleryData =
  d_id :: nat
  d_name :: string
  d_directoryHandle :: nat
  d_isShuffled :: "bool option"
  d_order :: "int option"

text \<open>
  What a folder holds, as the handles of the File System Access API show it: a file has
  a name and \<open>getFile()\<close> resolves to a file with its \<open>lastModified\<close> or rejects; a
  directory has a name and the entries that \<open>values()\<close> yields before it ends or
  fails (\<open>scanDirectoryRecursive\<close> catches that failure and keeps what it has).
\<close>

datatype entry =
  FileHandle string "exn + int"
| DirectoryHandle string "entry list"

text \<open>
  The browser: the two permission calls on a directory handle resolve to a state or
  reject (the flag is \<open>mode == 'readwrite'\<close>); \<open>folder\<close> is the content of the folder
  behind a handle; \<open>getAll\<close> rejects when \<open>getAllError\<close> is set; \<open>createFile\<close> is the error,
  if any, of writing a new file.
\<close>

record host =
  queryPermission :: "nat \<Rightarrow> bool \<Rightarrow> exn + permissionState"
  requestPermission :: "nat \<Rightarrow> bool \<Rightarrow> exn + permissionState"
  folder :: "nat \<Rightarrow> entry list"
  getAllError :: "exn option"
  createFile :: "nat \<Rightarrow> string \<Rightarrow> exn option"

text \<open>
  The fields of \<open>GalleryManager\<close>, and what the program changes outside itself: the
  object store (its records, in key order), the object URLs created and not revoked,
  the permission requests made, the files written, and the rest of the random stream.
\<close>

record state =
  galleries :: "gallery list"
  activeGalleryIndex :: int
  activeMediaIndex :: int
  isRandomMode :: bool
  previousMediaIndex :: int
  draggedTabIndex :: int
  db :: "galleryData list"
  objectURLs :: "nat set"
  nextURL :: nat
  requested :: "(nat \<times> bool) list"
  written :: "(nat \<times> string) list"
  random :: "rand01 stream"

subsection \<open>GalleryDB\<close>

definition toData :: "gallery \<Rightarrow> galleryData" where
  "toData g =
     \<lparr>d_id = gid g, d_name = name g, d_directoryHandle = directoryHandle g,
      d_isShuffled = Some (isShuffled g), d_order = order g\<rparr>"

text \<open>\<open>store.put\<close>: the record replaces the one of the same key.\<close>

fun put :: "galleryData \<Rightarrow> galleryData list \<Rightarrow> galleryData list" where
  "put r [] = [r]"
| "put r (x # xs) =
     (if d_id r < d_id x then r # x # xs
      else if d_id r = d_id x then r # xs
      else x # put r xs)"

definition get :: "galleryData list \<Rightarrow> nat \<Rightarrow> galleryData option" where
  "get store k = find (\<lambda>r. d_id r = k) store"

definition saveGallery :: "gallery \<Rightarrow> state \<Rightarrow> state" where
  "saveGallery g s = s\<lparr>db := put (toData g) (db s)\<rparr>"

definition deleteGallery :: "nat \<Rightarrow> state \<Rightarrow> state" where
  "deleteGallery k s = s\<lparr>db := filter (\<lambda>r. d_id r \<noteq> k) (db s)\<rparr>"

definition loadGalleries :: "host \<Rightarrow> state \<Rightarrow> exn + galleryData list" where
  "loadGalleries h s = (case getAllError h of Some e \<Rightarrow> Inl e | None \<Rightarrow> Inr (db s))"

subsection \<open>verifyPermission\<close>

text \<open>
  The method of \<open>GalleryManager\<close> and the one of \<open>Gallery\<close> have the same body. An
  \<open>await\<close> of a promise that rejects throws, and the method catches nothing.
\<close>

definition verifyPermission :: "host \<Rightarrow> nat \<Rightarrow> bool \<Rightarrow> state \<Rightarrow> (exn + bool) \<times> state" where
  "verifyPermission h dir withWrite s =
     (case queryPermission h dir withWrite of
        Inl e \<Rightarrow> (Inl e, s)
      | Inr q \<Rightarrow>
          if q = granted then (Inr True, s)
          else (let s' = s\<lparr>requested := requested s @ [(dir, withWrite)]\<rparr>
                in case requestPermission h dir withWrite of
                     Inl e \<Rightarrow> (Inl e, s')
                   | Inr r \<Rightarrow> if r = granted then (Inr True, s') else (Inr False, s')))"

subsection \<open>Saving a file into the active gallery\<close>

record blob =
  blobName :: string
  blobType :: string

definition getExtensionFromFileName :: "string \<Rightarrow> string option" where
  "getExtensionFromFileName nm =
     (if nm = [] \<or> CHR ''.'' \<notin> set nm then None
      else Some (toLowerCase (last (split CHR ''.'' nm))))"

text \<open>The object literal \<open>map\<close> of \<open>getExtensionFromMime\<close>, by its own keys.\<close>

definition mimeMap :: "(string \<times> string) list" where
  "mimeMap =
     [(''jpeg'', ''jpg''), (''png'', ''png''), (''webp'', ''webp''), (''gif'', ''gif''),
      (''mp4'', ''mp4''), (''webm'', ''webm''), (''x-matroska'', ''mkv''),
      (''quicktime'', ''mov'')]"

definition getExtensionFromMime :: "string \<Rightarrow> string option" where
  "getExtensionFromMime mime =
     (if mime = [] \<or> CHR ''/'' \<notin> set mime then None
      else (let subtype = hd (split CHR ''+'' (split CHR ''/'' mime ! 1))
            in orElse (map_of mimeMap subtype) (Some subtype)))"

definition extensionOf :: "blob \<Rightarrow> string" where
  "extensionOf f =
     (case orElse (orElse (getExtensionFromFileName (blobName f))
                          (getExtensionFromMime (blobType f))) (Some ''bin'') of
        None \<Rightarrow> ''bin'' | Some e \<Rightarrow> e)"

definition prefixOf :: "blob \<Rightarrow> string" where
  "prefixOf f =
     (if prefix ''image/'' (blobType f) then ''image''
      else if prefix ''video/'' (blobType f) then ''video'' else ''file'')"

text \<open>\<open>ts.replace(/[:.]/g, '-')\<close>\<close>

definition replaceColonDot :: "string \<Rightarrow> string" where
  "replaceColonDot ts = map (\<lambda>c. if c = CHR '':'' \<or> c = CHR ''.'' then CHR ''-'' else c) ts"

definition filenameFor :: "string \<Rightarrow> blob \<Rightarrow> string" where
  "filenameFor now f = prefixOf f @ replaceColonDot now @ ''.'' @ extensionOf f"

text \<open>
  \<open>saveFileToActiveGallery(file)\<close>, with \<open>now\<close> the value of \<open>new Date().toISOString()\<close>.
  The result is the name of the file written, or the exception thrown.
\<close>

definition saveFileToActiveGallery :: "host \<Rightarrow> string \<Rightarrow> blob \<Rightarrow> state \<Rightarrow> (exn + string) \<times> state" where
  "saveFileToActiveGallery h now f s =
     (case elemAt (galleries s) (activeGalleryIndex s) of
        None \<Rightarrow> (Inl (Error ''No active gallery selected''), s)
      | Some g \<Rightarrow>
          (case verifyPermission h (directoryHandle g) True s of
             (Inl e, s') \<Rightarrow> (Inl e, s')
           | (Inr False, s') \<Rightarrow> (Inl (Error ''Write permission denied for gallery directory''), s')
           | (Inr True, s') \<Rightarrow>
               (case createFile h (directoryHandle g) (filenameFor now f) of
                  Some e \<Rightarrow> (Inl e, s')
                | None \<Rightarrow>
                    (Inr (filenameFor now f),
                     s'\<lparr>written := written s' @ [(directoryHandle g, filenameFor now f)]\<rparr>))))"

subsection \<open>Gallery: scanning the folder\<close>

text \<open>An element of the array that \<open>scanDirectoryRecursive\<close> returns.\<close>

record fileEntry =
  fe_name :: string
  fe_getFile :: "exn + int"
  fe_path :: string
  fe_type :: mediaType

definition imageFormats :: "string list" where
  "imageFormats = [''.jpg'', ''.jpeg'', ''.png'', ''.gif'', ''.webp'', ''.bmp'']"

definition videoFormats :: "string list" where
  "videoFormats = [''.mp4'', ''.webm'', ''.ogg'']"

definition entryPath :: "string \<Rightarrow> string \<Rightarrow> string" where
  "entryPath p nm = (if p \<noteq> [] then p @ ''/'' @ nm else nm)"

fun scanDirectoryRecursive :: "entry list \<Rightarrow> string \<Rightarrow> fileEntry list"
  and scanEntry :: "string \<Rightarrow> entry \<Rightarrow> fileEntry list" where
  "scanDirectoryRecursive [] p = []"
| "scanDirectoryRecursive (e # es) p = scanEntry p e @ scanDirectoryRecursive es p"
| "scanEntry p (FileHandle nm f) =
     (let extension = ''.'' @ toLowerCase (last (split CHR ''.'' nm));
          isImage = (extension \<in> set imageFormats);
          isVideo = (extension \<in> set videoFormats)
      in if isImage \<or> isVideo
         then [\<lparr>fe_name = nm, fe_getFile = f, fe_path = entryPath p nm,
                 fe_type = (if isImage then Image else Video)\<rparr>]
         else [])"
| "scanEntry p (DirectoryHandle nm es) = scanDirectoryRecursive es (entryPath p nm)"

text \<open>
  The loop of \<open>loadMedia\<close> over the file entries: an entry whose \<open>getFile()\<close> rejects is
  logged and left out; for the others \<open>URL.createObjectURL\<close> makes a new URL.
\<close>

fun collectMedia :: "fileEntry list \<Rightarrow> state \<Rightarrow> mediaItem list \<times> state" where
  "collectMedia [] s = ([], s)"
| "collectMedia (fe # fes) s =
     (case fe_getFile fe of
        Inl e \<Rightarrow> collectMedia fes s
      | Inr lm \<Rightarrow>
          (case collectMedia fes
                  (s\<lparr>objectURLs := insert (nextURL s) (objectURLs s), nextURL := Suc (nextURL s)\<rparr>) of
             (ms, s') \<Rightarrow>
               (\<lparr>mname = fe_name fe, path = fe_path fe, url = nextURL s, mtype = fe_type fe,
                 lastModified = lm\<rparr> # ms, s')))"

text \<open>The comparator \<open>(a, b) => b.lastModified - a.lastModified\<close>.\<close>

definition byLastModified :: "mediaItem \<Rightarrow> mediaItem \<Rightarrow> int" where
  "byLastModified a b = lastModified b - lastModified a"

text \<open>\<open>[xs[i], xs[j]] = [xs[j], xs[i]]\<close>\<close>

definition swap :: "nat \<Rightarrow> nat \<Rightarrow> 'a list \<Rightarrow> 'a list" where
  "swap i j xs = xs[i := xs ! j, j := xs ! i]"

text \<open>
  The loop \<open>for (let i = xs.length - 1; i > 0; i--)\<close> of the shuffle, from \<open>i\<close> down;
  it returns the stream that is left.
\<close>

fun shuffleFrom :: "nat \<Rightarrow> 'a list \<Rightarrow> rand01 stream \<Rightarrow> 'a list \<times> rand01 stream" where
  "shuffleFrom 0 xs t = (xs, t)"
| "shuffleFrom (Suc k) xs t =
     shuffleFrom k (swap (Suc k) (randomIndex (shd t) (Suc k + 1)) xs) (stl t)"

definition fisherYates :: "'a list \<Rightarrow> rand01 stream \<Rightarrow> 'a list \<times> rand01 stream" where
  "fisherYates xs t = shuffleFrom (length xs - 1) xs t"

text \<open>
  \<open>gallery.loadMedia()\<close>. Its \<open>try\<close> catches a permission call that rejects; the media
  list is then empty, as it is when the permission is refused.
\<close>

definition loadMedia :: "host \<Rightarrow> gallery \<Rightarrow> state \<Rightarrow> gallery \<times> state" where
  "loadMedia h g s =
     (case verifyPermission h (directoryHandle g) True s of
        (Inl e, s1) \<Rightarrow> (g\<lparr>media := []\<rparr>, s1)
      | (Inr False, s1) \<Rightarrow> (g\<lparr>media := []\<rparr>, s1)
      | (Inr True, s1) \<Rightarrow>
          (case collectMedia (scanDirectoryRecursive (folder h (directoryHandle g)) []) s1 of
             (ms, s2) \<Rightarrow>
               if isShuffled g
               then (case fisherYates (sortBy byLastModified ms) (random s2) of
                       (ms', t) \<Rightarrow> (g\<lparr>media := ms'\<rparr>, s2\<lparr>random := t\<rparr>))
               else (g\<lparr>media := sortBy byLastModified ms\<rparr>, s2)))"

subsection \<open>GalleryManager\<close>

definition displayMedia :: "int \<Rightarrow> state \<Rightarrow> state" where
  "displayMedia i s =
     (case elemAt (galleries s) (activeGalleryIndex s) of
        None \<Rightarrow> s
      | Some g \<Rightarrow> if i < 0 \<or> i \<ge> int (length (media g)) then s else s\<lparr>activeMediaIndex := i\<rparr>)"

definition selectGallery :: "int \<Rightarrow> state \<Rightarrow> state" where
  "selectGallery i s =
     (if i < 0 \<or> i \<ge> int (length (galleries s)) then s
      else (let s' = s\<lparr>activeGalleryIndex := i, activeMediaIndex := 0, isRandomMode := False,
                        previousMediaIndex := - 1\<rparr>
            in if length (media (galleries s ! nat i)) > 0 then displayMedia 0 s' else s'))"

definition createGallery :: "host \<Rightarrow> nat \<Rightarrow> string \<Rightarrow> nat \<Rightarrow> state \<Rightarrow> state" where
  "createGallery h now nm dir s =
     (case loadMedia h ((Gallery now nm dir)\<lparr>order := Some (int (length (galleries s)))\<rparr>) s of
        (g, s1) \<Rightarrow>
          (let s2 = saveGallery g s1;
               s3 = s2\<lparr>galleries := galleries s2 @ [g]\<rparr>
           in selectGallery (int (length (galleries s3)) - 1) s3))"

text \<open>
  \<open>closeGallery(event, index)\<close>. With no gallery at \<open>index\<close>, reading \<open>gallery.media\<close>
  throws before anything is changed.
\<close>

definition closeGallery :: "int \<Rightarrow> state \<Rightarrow> exn + state" where
  "closeGallery i s =
     (case elemAt (galleries s) i of
        None \<Rightarrow> Inl TypeError
      | Some g \<Rightarrow>
          (let s1 = s\<lparr>objectURLs := objectURLs s - url ` set (media g)\<rparr>;
               s2 = deleteGallery (gid g) s1;
               s3 = s2\<lparr>galleries := spliceRemove (galleries s2) i\<rparr>
           in if length (galleries s3) > 0
              then (let s4 =
                          (if i < activeGalleryIndex s3
                           then s3\<lparr>activeGalleryIndex := activeGalleryIndex s3 - 1\<rparr>
                           else if i = activeGalleryIndex s3
                           then s3\<lparr>activeGalleryIndex := min i (int (length (galleries s3)) - 1)\<rparr>
                           else s3)
                    in Inr (selectGallery (activeGalleryIndex s4) s4))
              else Inr (s3\<lparr>activeGalleryIndex := - 1\<rparr>)))"

text \<open>The comparator \<open>(a, b) => (a.order || 0) - (b.order || 0)\<close>.\<close>

definition orderOr0 :: "int option \<Rightarrow> int" where
  "orderOr0 k = (case k of None \<Rightarrow> 0 | Some n \<Rightarrow> n)"

definition byOrder :: "galleryData \<Rightarrow> galleryData \<Rightarrow> int" where
  "byOrder a b = orderOr0 (d_order a) - orderOr0 (d_order b)"

definition fromData :: "galleryData \<Rightarrow> gallery" where
  "fromData r =
     (Gallery (d_id r) (d_name r) (d_directoryHandle r))
       \<lparr>isShuffled := (case d_isShuffled r of None \<Rightarrow> False | Some b \<Rightarrow> b),
        order := Some (orderOr0 (d_order r))\<rparr>"

text \<open>
  The \<open>for\<close> loop of \<open>loadFromStorage\<close>. A permission call that rejects ends it: the
  exception goes to the \<open>catch\<close> of \<open>loadFromStorage\<close>.
\<close>

fun loadEach :: "host \<Rightarrow> galleryData list \<Rightarrow> state \<Rightarrow> exn option \<times> state" where
  "loadEach h [] s = (None, s)"
| "loadEach h (r # rs) s =
     (case verifyPermission h (d_directoryHandle r) True s of
        (Inl e, s1) \<Rightarrow> (Some e, s1)
      | (Inr False, s1) \<Rightarrow> loadEach h rs s1
      | (Inr True, s1) \<Rightarrow>
          (case loadMedia h (fromData r) s1 of
             (g, s2) \<Rightarrow> loadEach h rs (s2\<lparr>galleries := galleries s2 @ [g]\<rparr>)))"

definition loadFromStorage :: "host \<Rightarrow> state \<Rightarrow> state" where
  "loadFromStorage h s =
     (case loadGalleries h s of
        Inl e \<Rightarrow> s
      | Inr storedGalleries \<Rightarrow>
          (case loadEach h (sortBy byOrder storedGalleries) s of
             (Some e, s1) \<Rightarrow> s1
           | (None, s1) \<Rightarrow> if length (galleries s1) > 0 then selectGallery 0 s1 else s1))"



subsection \<open>App: navigation and shuffle\<close>

text \<open>
  The loop \<open>do { randomIndex = Math.floor(Math.random() * n) } while (randomIndex === cur)\<close>.
  It does not return (\<open>None\<close>) when every number to come gives \<open>cur\<close>.
\<close>

partial_function (option) drawOther :: "nat \<Rightarrow> int \<Rightarrow> rand01 stream \<Rightarrow> (nat \<times> rand01 stream) option" where
  "drawOther n cur t =
     (if int (randomIndex (shd t) n) = cur then drawOther n cur (stl t)
      else Some (randomIndex (shd t) n, stl t))"

definition selectRandomMedia :: "state \<Rightarrow> state option" where
  "selectRandomMedia s =
     (case elemAt (galleries s) (activeGalleryIndex s) of
        None \<Rightarrow> Some s
      | Some g \<Rightarrow>
          if length (media g) \<le> 1 then Some s
          else (case drawOther (length (media g)) (activeMediaIndex s) (random s) of
                  None \<Rightarrow> None
                | Some (j, t) \<Rightarrow>
                    Some (displayMedia (int j)
                            (s\<lparr>isRandomMode := True, previousMediaIndex := activeMediaIndex s,
                               random := t\<rparr>))))"


definition toggleRandomMedia :: "state \<Rightarrow> state option" where
  "toggleRandomMedia s =
     (if \<not> isRandomMode s then selectRandomMedia (s\<lparr>isRandomMode := True\<rparr>)
      else Some (s\<lparr>isRandomMode := False\<rparr>))"

text \<open>
  \<open>shuffleGallery()\<close>. The gallery is an object of the array, so the change is made in
  the array.
\<close>

definition shuffleGallery :: "state \<Rightarrow> state" where
  "shuffleGallery s =
     (case elemAt (galleries s) (activeGalleryIndex s) of
        None \<Rightarrow> s
      | Some g \<Rightarrow>
          if length (media g) = 0 then s
          else (let (ms, t) =
                      (if \<not> isShuffled g then fisherYates (media g) (random s)
                       else (sortBy byLastModified (media g), random s));
                    g' = g\<lparr>isShuffled := \<not> isShuffled g, media := ms\<rparr>;
                    s1 = s\<lparr>galleries := (galleries s)[nat (activeGalleryIndex s) := g'],
                           random := t\<rparr>
                in displayMedia 0 (saveGallery g' s1)))"

text \<open>
  The end of \<open>handleDrop\<close> and of \<open>handlePaste\<close>, after the files are saved: the active
  gallery is scanned again.
\<close>

definition rescanActive :: "host \<Rightarrow> state \<Rightarrow> state" where
  "rescanActive h s =
     (case elemAt (galleries s) (activeGalleryIndex s) of
        None \<Rightarrow> s
      | Some g \<Rightarrow>
          (case loadMedia h g s of
             (g', s1) \<Rightarrow>
               displayMedia 0 (s1\<lparr>galleries := (galleries s1)[nat (activeGalleryIndex s) := g']\<rparr>)))"

text \<open>
  \<open>handleDrop(e)\<close> for the files of \<open>e.dataTransfer\<close>, each with the time at which it is
  saved. A file that cannot be saved is reported and the loop goes on.
\<close>

fun saveAll :: "host \<Rightarrow> (string \<times> blob) list \<Rightarrow> state \<Rightarrow> state" where
  "saveAll h [] s = s"
| "saveAll h ((now, f) # fs) s = saveAll h fs (snd (saveFileToActiveGallery h now f s))"

definition handleDrop :: "host \<Rightarrow> (string \<times> blob) list \<Rightarrow> state \<Rightarrow> state" where
  "handleDrop h files s = rescanActive h (saveAll h files s)"

subsection \<open>The extension of a saved file, as a rule\<close>



subsection \<open>Notions used to state the claims\<close>



text \<open>Most recently modified first.\<close>

definition descending :: "mediaItem list \<Rightarrow> bool" where
  "descending ms = sorted_wrt (\<lambda>a b. lastModified a \<ge> lastModified b) ms"

text \<open>
  What a scan shows of a media item (everything but its URL), and what the readable
  entries of a scan are: the entries whose \<open>getFile()\<close> resolves, in the order of the scan.
\<close>

definition describe :: "mediaItem \<Rightarrow> string \<times> string \<times> mediaType \<times> int" where
  "describe m = (mname m, path m, mtype m, lastModified m)"

definition readable :: "fileEntry list \<Rightarrow> (string \<times> string \<times> mediaType \<times> int) list" where
  "readable fes =
     concat (map (\<lambda>fe. case fe_getFile fe of
                          Inl e \<Rightarrow> []
                        | Inr lm \<Rightarrow> [(fe_name fe, fe_path fe, fe_type fe, lm)]) fes)"






subsection \<open>Example hosts and states\<close>

definition grantingHost :: "entry list \<Rightarrow> host" where
  "grantingHost es =
     \<lparr>queryPermission = (\<lambda>dir w. Inr granted), requestPermission = (\<lambda>dir w. Inr granted),
      folder = (\<lambda>dir. es), getAllError = None, createFile = (\<lambda>dir nm. None)\<rparr>"

definition emptyState :: state where
  "emptyState =
     \<lparr>galleries = [], activeGalleryIndex = - 1, activeMediaIndex = 0, isRandomMode = False,
      previousMediaIndex = - 1, draggedTabIndex = - 1, db = [], objectURLs = {}, nextURL = 0,
      requested = [], written = [], random = sconst (frac 0 1)\<rparr>"



text \<open>
  A host whose permission state is \<open>prompt\<close> and whose \<open>requestPermission\<close> rejects, as
  the browser does for a request made without a user gesture.
\<close>

definition promptingHost :: host where
  "promptingHost =
     \<lparr>queryPermission = (\<lambda>dir w. Inr prompt),
      requestPermission = (\<lambda>dir w. Inl (DOMException ''SecurityError'')),
      folder = (\<lambda>dir. []), getAllError = None, createFile = (\<lambda>dir nm. None)\<rparr>"

definition threeGalleries :: state where
  "threeGalleries =
     emptyState
       \<lparr>galleries := [(Gallery 1 ''a'' 11)\<lparr>order := Some 0\<rparr>, (Gallery 2 ''b'' 12)\<lparr>order := Some 1\<rparr>,
                      (Gallery 3 ''c'' 13)\<lparr>order := Some 2\<rparr>],
        activeGalleryIndex := 1, draggedTabIndex := 0,
        db := [toData ((Gallery 1 ''a'' 11)\<lparr>order := Some 0\<rparr>),
               toData ((Gallery 2 ''b'' 12)\<lparr>order := Some 1\<rparr>),
               toData ((Gallery 3 ''c'' 13)\<lparr>order := Some 2\<rparr>)]\<rparr>"

definition item :: "string \<Rightarrow> nat \<Rightarrow> int \<Rightarrow> mediaItem" where
  "item nm u t = \<lparr>mname = nm, path = nm, url = u, mtype = Image, lastModified = t\<rparr>"

definition randomState :: state where
  "randomState =
     emptyState
       \<lparr>galleries := [(Gallery 1 ''a'' 11)
                        \<lparr>media := [item ''B.jpg'' 1 300, item ''C.jpg'' 2 200, item ''A.jpg'' 0 100],
                         order := Some 0\<rparr>],
        activeGalleryIndex := 0, activeMediaIndex := 1, isRandomMode := True,
        objectURLs := {0, 1, 2}, nextURL := 3,
        random := [frac 1 2, frac 0 1] @- sconst (frac 2 3)\<rparr>"

definition exampleFolder :: "entry list" where
  "exampleFolder =
     [FileHandle ''A.jpg'' (Inr 100), FileHandle ''notes.txt'' (Inr 50),
      DirectoryHandle ''sub''
        [FileHandle ''B.PNG'' (Inr 300), FileHandle ''D.gif'' (Inl (DOMException ''NotReadableError''))],
      FileHandle ''C.webm'' (Inr 200)]"


definition shuffledState :: state where
  "shuffledState =
     emptyState
       \<lparr>galleries := [(Gallery 1 ''a'' 11)
                        \<lparr>media := [item ''A.jpg'' 0 100, item ''B.jpg'' 1 300, item ''C.jpg'' 2 200],
                         isShuffled := True, order := Some 0\<rparr>],
        activeGalleryIndex := 0, activeMediaIndex := 2, objectURLs := {0, 1, 2}, nextURL := 3\<rparr>"

text \<open>
  A host that grants every folder but folder 12, and a store of three records of which
  the second was written without \<open>isShuffled\<close> and \<open>order\<close>.
\<close>

definition selectiveHost :: host where
  "selectiveHost =
     \<lparr>queryPermission = (\<lambda>dir w. if dir = 12 then Inr prompt else Inr granted),
      requestPermission = (\<lambda>dir w. Inr denied),
      folder = (\<lambda>dir. []), getAllError = None, createFile = (\<lambda>dir nm. None)\<rparr>"

definition storedState :: state where
  "storedState =
     emptyState
       \<lparr>db := [\<lparr>d_id = 1, d_name = ''a'', d_directoryHandle = 11, d_isShuffled = Some False,
                  d_order = Some 2\<rparr>,
               \<lparr>d_id = 2, d_name = ''b'', d_directoryHandle = 12, d_isShuffled = None,
                  d_order = None\<rparr>,
               \<lparr>d_id = 3, d_name = ''c'', d_directoryHandle = 13, d_isShuffled = Some True,
                  d_order = Some 1\<rparr>]\<rparr>"

section \<open>Basic facts\<close>

subsection \<open>Random numbers\<close>

lemma randomIndex_lt: "0 < n \<Longrightarrow> randomIndex r n < n"
proof (transfer)
  fix n :: nat and r :: rat
  assume n: "0 < n" and r: "0 \<le> r \<and> r < 1"
  then have "r * of_nat n < of_nat n" by simp
  then have "\<lfloor>r * of_nat n\<rfloor> < int n"
    by (simp add: floor_less_iff)
  moreover have "0 \<le> \<lfloor>r * of_nat n\<rfloor>" using r by simp
  ultimately show "nat \<lfloor>r * of_nat n\<rfloor> < n" by linarith
qed

lemma randomIndex_frac: "randomIndex (frac a b) n = (if a < b then a * n div b else 0)"
proof (transfer)
  fix a b n :: nat
  have "\<lfloor>(of_nat a / of_nat b :: rat) * of_nat n\<rfloor> = \<lfloor>(of_nat (a * n) :: rat) / of_nat b\<rfloor>"
    by simp
  also have "\<dots> = int (a * n div b)"
    by (rule floor_divide_of_nat_eq)
  finally show "nat \<lfloor>(if a < b then of_nat a / of_nat b else 0 :: rat) * of_nat n\<rfloor> = (if a < b then a * n div b else 0)"
    by simp
qed

subsection \<open>Strings\<close>

lemma split_nonempty: "split sep s \<noteq> []"
  by (induction s) (auto split: list.splits)




lemma hd_split_append: "sep \<notin> set pre \<Longrightarrow> hd (split sep (pre @ sep # suf)) = pre"
  by (induction pre) (auto simp: split_nonempty split: list.splits)








subsection \<open>The object store\<close>



lemma get_filter: "get (filter (\<lambda>r. d_id r \<noteq> k) store) k' = (if k' = k then None else get store k')"
  by (induction store) (auto simp: get_def)





subsection \<open>Arrays\<close>

lemma spliceRemove_nat: "0 \<le> i \<Longrightarrow> i < int (length xs) \<Longrightarrow>
    spliceRemove xs i = take (nat i) xs @ drop (Suc (nat i)) xs"
  by (simp add: spliceRemove_def spliceStart_def min_def)














subsection \<open>Selecting a gallery\<close>

lemma activeGalleryIndex_selectGallery:
  "activeGalleryIndex s = i \<Longrightarrow> activeGalleryIndex (selectGallery i s) = i"
  by (simp add: selectGallery_def displayMedia_def Let_def split: option.splits)

lemma galleries_selectGallery: "galleries (selectGallery i s) = galleries s"
  by (simp add: selectGallery_def displayMedia_def Let_def split: option.splits)

lemma db_selectGallery: "db (selectGallery i s) = db s"
  by (simp add: selectGallery_def displayMedia_def Let_def split: option.splits)

lemma objectURLs_selectGallery: "objectURLs (selectGallery i s) = objectURLs s"
  by (simp add: selectGallery_def displayMedia_def Let_def split: option.splits)

subsection \<open>Dropping a tab\<close>


subsection \<open>Drawing another index\<close>


lemma drawOther_first:
  "(\<forall>i<k. int (randomIndex (t !! i) n) = cur) \<Longrightarrow> int (randomIndex (t !! k) n) \<noteq> cur \<Longrightarrow>
     drawOther n cur t = Some (randomIndex (t !! k) n, sdrop (Suc k) t)"
proof (induction k arbitrary: t)
  case 0
  then show ?case by (subst drawOther.simps) simp
next
  case (Suc k)
  from Suc.prems(1) have hd: "int (randomIndex (shd t) n) = cur" by (metis snth.simps(1) zero_less_Suc)
  from Suc.prems(1) have "\<forall>i<k. int (randomIndex (stl t !! i) n) = cur" by auto
  moreover from Suc.prems(2) have "int (randomIndex (stl t !! k) n) \<noteq> cur" by simp
  ultimately have "drawOther n cur (stl t) = Some (randomIndex (stl t !! k) n, sdrop (Suc k) (stl t))"
    by (rule Suc.IH)
  then show ?case using hd by (subst drawOther.simps) simp
qed

lemma first_accepted:
  assumes "\<exists>k. int (randomIndex (t !! k) n) \<noteq> cur"
  shows "\<exists>k. (\<forall>i<k. int (randomIndex (t !! i) n) = cur) \<and> int (randomIndex (t !! k) n) \<noteq> cur"
proof -
  let ?P = "\<lambda>k. int (randomIndex (t !! k) n) \<noteq> cur"
  from assms have "?P (LEAST k. ?P k)" by (rule LeastI_ex)
  moreover have "\<forall>i<(LEAST k. ?P k). \<not> ?P i" using not_less_Least by blast
  ultimately show ?thesis by blast
qed


text \<open>
  The loop returns exactly when some number to come gives another index, and what it
  returns is one of the indices drawn, other than the current one.
\<close>

lemma drawOther_Some:
  assumes "drawOther n cur t = Some y"
  shows "\<exists>k. fst y = randomIndex (t !! k) n \<and> int (fst y) \<noteq> cur \<and> snd y = sdrop (Suc k) t"
proof (rule drawOther.raw_induct [where P = "\<lambda>n cur t y.
    \<exists>k. fst y = randomIndex (t !! k) n \<and> int (fst y) \<noteq> cur \<and> snd y = sdrop (Suc k) t", OF _ assms])
  fix rec :: "nat \<Rightarrow> int \<Rightarrow> rand01 stream \<Rightarrow> (nat \<times> rand01 stream) option"
    and n cur t y
  assume IH: "\<And>n cur t y. rec n cur t = Some y \<Longrightarrow>
      \<exists>k. fst y = randomIndex (t !! k) n \<and> int (fst y) \<noteq> cur \<and> snd y = sdrop (Suc k) t"
    and body: "(if int (randomIndex (shd t) n) = cur then rec n cur (stl t)
      else Some (randomIndex (shd t) n, stl t)) = Some y"
  show "\<exists>k. fst y = randomIndex (t !! k) n \<and> int (fst y) \<noteq> cur \<and> snd y = sdrop (Suc k) t"
  proof (cases "int (randomIndex (shd t) n) = cur")
    case True
    with body have "rec n cur (stl t) = Some y" by simp
    then obtain k where "fst y = randomIndex (stl t !! k) n \<and> int (fst y) \<noteq> cur
        \<and> snd y = sdrop (Suc k) (stl t)"
      using IH by blast
    then have "fst y = randomIndex (t !! Suc k) n \<and> int (fst y) \<noteq> cur \<and> snd y = sdrop (Suc (Suc k)) t"
      by simp
    then show ?thesis by blast
  next
    case False
    with body have "y = (randomIndex (shd t) n, stl t)" by simp
    with False have "fst y = randomIndex (t !! 0) n \<and> int (fst y) \<noteq> cur \<and> snd y = sdrop (Suc 0) t"
      by simp
    then show ?thesis by blast
  qed
qed

lemma drawOther_returns_iff:
  "drawOther n cur t \<noteq> None \<longleftrightarrow> (\<exists>k. int (randomIndex (t !! k) n) \<noteq> cur)"
proof
  assume "drawOther n cur t \<noteq> None"
  then obtain y where "drawOther n cur t = Some y" by auto
  then show "\<exists>k. int (randomIndex (t !! k) n) \<noteq> cur"
    using drawOther_Some by metis
next
  assume "\<exists>k. int (randomIndex (t !! k) n) \<noteq> cur"
  then obtain k where "(\<forall>i<k. int (randomIndex (t !! i) n) = cur) \<and> int (randomIndex (t !! k) n) \<noteq> cur"
    using first_accepted by blast
  then have "drawOther n cur t = Some (randomIndex (t !! k) n, sdrop (Suc k) t)"
    using drawOther_first by blast
  then show "drawOther n cur t \<noteq> None" by simp
qed

subsection \<open>Sorting\<close>

lemma sortInsert_byLastModified:
  "sortInsert byLastModified x ys = insort_key (\<lambda>m. - lastModified m) x ys"
  by (induction ys) (auto simp: byLastModified_def)

lemma sortBy_byLastModified: "sortBy byLastModified xs = sort_key (\<lambda>m. - lastModified m) xs"
proof -
  have "sortInsert byLastModified = insort_key (\<lambda>m. - lastModified m)"
    by (intro ext) (rule sortInsert_byLastModified)
  then show ?thesis by (simp add: sortBy_def sort_key_def)
qed



lemma descending_iff: "descending ms \<longleftrightarrow> sorted (map (\<lambda>m. - lastModified m) ms)"
  by (simp add: descending_def sorted_map)

lemma descending_sortBy: "descending (sortBy byLastModified ms)"
  by (simp add: descending_iff sortBy_byLastModified)

lemma mset_sortBy: "mset (sortBy byLastModified ms) = mset ms"
  by (simp add: sortBy_byLastModified)

lemma stable_sortBy:
  "filter (\<lambda>m. lastModified m = t) (sortBy byLastModified ms) = filter (\<lambda>m. lastModified m = t) ms"
proof -
  have "filter (\<lambda>m. - lastModified m = - t) (sort_key (\<lambda>m. - lastModified m) ms)
      = filter (\<lambda>m. - lastModified m = - t) ms"
    by (rule sort_key_stable)
  then show ?thesis by (simp add: sortBy_byLastModified)
qed

lemma sortBy_descending: "descending ms \<Longrightarrow> sortBy byLastModified ms = ms"
  by (simp add: descending_iff sortBy_byLastModified sort_key_id_if_sorted)



subsection \<open>The shuffle\<close>

lemma length_swap: "length (swap i j xs) = length xs"
  by (simp add: swap_def)

lemma mset_swap_list: "i < length xs \<Longrightarrow> j < length xs \<Longrightarrow> mset (swap i j xs) = mset xs"
  unfolding swap_def by (rule mset_swap)

lemma length_shuffleFrom: "length (fst (shuffleFrom k xs t)) = length xs"
  by (induction k arbitrary: xs t) (simp_all add: length_swap)

lemma mset_shuffleFrom: "k < length xs \<Longrightarrow> mset (fst (shuffleFrom k xs t)) = mset xs"
proof (induction k arbitrary: xs t)
  case 0
  then show ?case by simp
next
  case (Suc k)
  let ?j = "randomIndex (shd t) (Suc k + 1)"
  have "?j < Suc k + 1" by (rule randomIndex_lt) simp
  with Suc.prems have j: "?j < length xs" by simp
  have "mset (fst (shuffleFrom k (swap (Suc k) ?j xs) (stl t))) = mset (swap (Suc k) ?j xs)"
    using Suc.prems by (intro Suc.IH) (simp add: length_swap)
  also have "\<dots> = mset xs" using Suc.prems j by (rule mset_swap_list)
  finally show ?case by simp
qed

lemma mset_fisherYates: "mset (fst (fisherYates xs t)) = mset xs"
proof (cases xs)
  case Nil
  then show ?thesis by (simp add: fisherYates_def)
next
  case (Cons x ys)
  then have "length xs - 1 < length xs" by simp
  then show ?thesis unfolding fisherYates_def by (rule mset_shuffleFrom)
qed

lemma randomIndex_frac_self: "j < n \<Longrightarrow> randomIndex (frac j n) n = j"
  by (simp add: randomIndex_frac)

lemma take_swap: "i < m \<Longrightarrow> j < m \<Longrightarrow> take m (swap i j xs) = swap i j (take m xs)"
  by (simp add: swap_def take_update_swap)

lemma drop_swap: "i < m \<Longrightarrow> j < m \<Longrightarrow> drop m (swap i j xs) = drop m xs"
  by (simp add: swap_def)

lemma nth_swap_left: "i < length xs \<Longrightarrow> j < length xs \<Longrightarrow> swap i j xs ! i = xs ! j"
  by (cases "i = j") (simp_all add: swap_def)

lemma mset_take_Suc: "k < length xs \<Longrightarrow> mset (take (Suc k) xs) = mset (take k xs) + {#xs ! k#}"
  by (simp add: take_Suc_conv_app_nth)

lemma shuffleFrom_reaches:
  "Suc k \<le> length xs \<Longrightarrow> length ys = length xs \<Longrightarrow>
   mset (take (Suc k) ys) = mset (take (Suc k) xs) \<Longrightarrow> drop (Suc k) ys = drop (Suc k) xs \<Longrightarrow>
   \<exists>t. fst (shuffleFrom k xs t) = ys"
proof (induction k arbitrary: xs)
  case 0
  then have "ys = xs" by (cases xs; cases ys) auto
  then show ?case by simp
next
  case (Suc k)
  let ?i = "Suc k"
  let ?e = "ys ! ?i"
  have i_xs: "?i < length xs" and i_ys: "?i < length ys" using Suc.prems by simp_all
  have "?e \<in> set (take (Suc ?i) ys)"
    using i_ys by (simp add: take_Suc_conv_app_nth)
  then have "?e \<in># mset (take (Suc ?i) ys)" by simp
  then have "?e \<in> set (take (Suc ?i) xs)" using Suc.prems(3) by (metis set_mset_mset)
  then obtain j where j: "j < Suc ?i" and xj: "xs ! j = ?e"
    by (auto simp: in_set_conv_nth)
  have j_xs: "j < length xs" using j i_xs by simp
  let ?xs' = "swap ?i j xs"
  have len': "length ?xs' = length xs" by (rule length_swap)
  have at_i: "?xs' ! ?i = ?e" using i_xs j_xs by (simp add: nth_swap_left xj)
  have p1: "Suc k \<le> length ?xs'" using Suc.prems(1) by (simp add: len')
  have p2: "length ys = length ?xs'" using Suc.prems(2) by (simp add: len')
  have "mset (take (Suc ?i) ?xs') = mset (swap ?i j (take (Suc ?i) xs))"
    using j by (simp add: take_swap)
  also have "\<dots> = mset (take (Suc ?i) xs)"
    using j i_xs by (intro mset_swap_list) simp_all
  also have "\<dots> = mset (take (Suc ?i) ys)" using Suc.prems(3) by simp
  finally have "mset (take ?i ?xs') + {#?e#} = mset (take ?i ys) + {#?e#}"
    using i_xs i_ys by (simp add: mset_take_Suc len' at_i)
  then have p3: "mset (take (Suc k) ys) = mset (take (Suc k) ?xs')" by simp
  have "drop ?i ?xs' = ?xs' ! ?i # drop (Suc ?i) ?xs'"
    using i_xs by (simp add: Cons_nth_drop_Suc len')
  also have "\<dots> = ?e # drop (Suc ?i) xs" using j by (simp add: at_i drop_swap)
  also have "\<dots> = ?e # drop (Suc ?i) ys" using Suc.prems(4) by simp
  also have "\<dots> = drop ?i ys" using i_ys by (simp add: Cons_nth_drop_Suc)
  finally have p4: "drop (Suc k) ys = drop (Suc k) ?xs'" by simp
  from Suc.IH [OF p1 p2 p3 p4] obtain t' where t': "fst (shuffleFrom k ?xs' t') = ys" ..
  have "fst (shuffleFrom (Suc k) xs (frac j (Suc k + 1) ## t')) = ys"
    using j t' by (simp add: randomIndex_frac_self)
  then show ?case ..
qed

lemma fisherYates_reaches:
  assumes "mset ys = mset xs"
  shows "\<exists>t. fst (fisherYates xs t) = ys"
proof (cases xs)
  case Nil
  with assms show ?thesis by (simp add: fisherYates_def)
next
  case (Cons x xs')
  have len: "length ys = length xs" using assms by (rule mset_eq_length)
  have k: "Suc (length xs - 1) = length xs" using Cons by simp
  have "\<exists>t. fst (shuffleFrom (length xs - 1) xs t) = ys"
  proof (rule shuffleFrom_reaches)
    show "Suc (length xs - 1) \<le> length xs" using k by simp
    show "length ys = length xs" by (rule len)
    show "mset (take (Suc (length xs - 1)) ys) = mset (take (Suc (length xs - 1)) xs)"
      using assms len by (simp add: k)
    show "drop (Suc (length xs - 1)) ys = drop (Suc (length xs - 1)) xs"
      using len by (simp add: k)
  qed
  then show ?thesis by (simp add: fisherYates_def)
qed

subsection \<open>Loading the media of a gallery\<close>

lemma fst_verifyPermission_state:
  "fst (verifyPermission h dir w s) = fst (verifyPermission h dir w s')"
  by (simp add: verifyPermission_def Let_def split: sum.splits)

lemma random_verifyPermission: "random (snd (verifyPermission h dir w s)) = random s"
  by (simp add: verifyPermission_def Let_def split: sum.splits)

lemma nextURL_verifyPermission: "nextURL (snd (verifyPermission h dir w s)) = nextURL s"
  by (simp add: verifyPermission_def Let_def split: sum.splits)

lemma objectURLs_verifyPermission: "objectURLs (snd (verifyPermission h dir w s)) = objectURLs s"
  by (simp add: verifyPermission_def Let_def split: sum.splits)

lemma snd_verifyPermission_random:
  "snd (verifyPermission h dir w (s\<lparr>random := t\<rparr>)) = (snd (verifyPermission h dir w s))\<lparr>random := t\<rparr>"
  by (simp add: verifyPermission_def Let_def split: sum.splits)

lemma collectMedia_Cons:
  "collectMedia (fe # fes) s =
     (case fe_getFile fe of
        Inl e \<Rightarrow> collectMedia fes s
      | Inr lm \<Rightarrow>
          (\<lparr>mname = fe_name fe, path = fe_path fe, url = nextURL s, mtype = fe_type fe,
            lastModified = lm\<rparr>
           # fst (collectMedia fes
                   (s\<lparr>objectURLs := insert (nextURL s) (objectURLs s), nextURL := Suc (nextURL s)\<rparr>)),
           snd (collectMedia fes
                   (s\<lparr>objectURLs := insert (nextURL s) (objectURLs s), nextURL := Suc (nextURL s)\<rparr>))))"
  by (simp split: sum.splits prod.splits)

lemma describe_collectMedia: "map describe (fst (collectMedia fes s)) = readable fes"
proof (induction fes arbitrary: s)
  case Nil
  then show ?case by (simp add: readable_def)
next
  case (Cons fe fes)
  then show ?case
    by (simp add: collectMedia_Cons readable_def describe_def del: collectMedia.simps
        split: sum.splits)
qed

lemma random_collectMedia: "random (snd (collectMedia fes s)) = random s"
proof (induction fes arbitrary: s)
  case Nil
  then show ?case by simp
next
  case (Cons fe fes)
  then show ?case
    by (simp add: collectMedia_Cons del: collectMedia.simps split: sum.splits)
qed

lemma fst_collectMedia_random: "fst (collectMedia fes (s\<lparr>random := t\<rparr>)) = fst (collectMedia fes s)"
proof (induction fes arbitrary: s)
  case Nil
  then show ?case by simp
next
  case (Cons fe fes)
  have upd: "\<And>s. s\<lparr>random := t, objectURLs := insert (nextURL s) (objectURLs s), nextURL := Suc (nextURL s)\<rparr>
      = s\<lparr>objectURLs := insert (nextURL s) (objectURLs s), nextURL := Suc (nextURL s), random := t\<rparr>"
    by simp
  show ?case
    by (simp add: collectMedia_Cons upd Cons.IH del: collectMedia.simps split: sum.splits)
qed

lemma objectURLs_collectMedia: "objectURLs s \<subseteq> objectURLs (snd (collectMedia fes s))"
proof (induction fes arbitrary: s)
  case Nil
  then show ?case by simp
next
  case (Cons fe fes)
  show ?case
  proof (cases "fe_getFile fe")
    case (Inl e)
    then show ?thesis using Cons.IH by (simp add: collectMedia_Cons del: collectMedia.simps)
  next
    case (Inr lm)
    have "objectURLs s \<subseteq> insert (nextURL s) (objectURLs s)" by auto
    also have "\<dots> \<subseteq> objectURLs (snd (collectMedia fes
        (s\<lparr>objectURLs := insert (nextURL s) (objectURLs s), nextURL := Suc (nextURL s)\<rparr>)))"
      using Cons.IH [of "s\<lparr>objectURLs := insert (nextURL s) (objectURLs s), nextURL := Suc (nextURL s)\<rparr>"]
      by simp
    finally show ?thesis using Inr by (simp add: collectMedia_Cons del: collectMedia.simps)
  qed
qed

lemma loadMedia_granted:
  assumes "fst (verifyPermission h (directoryHandle g) True s) = Inr True"
  shows "loadMedia h g s =
    (let s1 = snd (verifyPermission h (directoryHandle g) True s);
         c = collectMedia (scanDirectoryRecursive (folder h (directoryHandle g)) []) s1;
         sorted = sortBy byLastModified (fst c)
     in if isShuffled g
        then (g\<lparr>media := fst (fisherYates sorted (random (snd c)))\<rparr>,
              (snd c)\<lparr>random := snd (fisherYates sorted (random (snd c)))\<rparr>)
        else (g\<lparr>media := sorted\<rparr>, snd c))"
proof -
  obtain r s1 where v: "verifyPermission h (directoryHandle g) True s = (r, s1)" by force
  with assms have r: "r = Inr True" by simp
  show ?thesis
    by (simp add: loadMedia_def v r Let_def split: prod.splits)
qed

lemma loadMedia_refused:
  assumes "fst (verifyPermission h (directoryHandle g) True s) \<noteq> Inr True"
  shows "loadMedia h g s = (g\<lparr>media := []\<rparr>, snd (verifyPermission h (directoryHandle g) True s))"
proof -
  obtain r s1 where v: "verifyPermission h (directoryHandle g) True s = (r, s1)" by force
  with assms have r: "r \<noteq> Inr True" by simp
  show ?thesis
    using r by (cases r) (auto simp: loadMedia_def v)
qed

lemma random_snd_collectMedia_random:
  "random (snd (collectMedia fes (s\<lparr>random := t\<rparr>))) = t"
  by (simp add: random_collectMedia)

lemma scan_exampleFolder:
  "readable (scanDirectoryRecursive exampleFolder []) =
     [(''A.jpg'', ''A.jpg'', Image, 100), (''B.PNG'', ''sub/B.PNG'', Image, 300),
      (''C.webm'', ''C.webm'', Video, 200)]"
  by (simp add: exampleFolder_def readable_def entryPath_def imageFormats_def videoFormats_def
      toLowerCase_def lowerChar_def Let_def)

subsection \<open>Toggling the shuffle\<close>

lemma elemAt_update:
  "elemAt xs i = Some x \<Longrightarrow> elemAt (xs[nat i := y]) i = Some y"
  by (auto simp: elemAt_def split: if_splits)

lemma length_fisherYates: "length (fst (fisherYates xs t)) = length xs"
  by (simp add: fisherYates_def length_shuffleFrom)

lemma length_sortBy: "length (sortBy byLastModified xs) = length xs"
  by (simp add: sortBy_byLastModified)

lemma fisherYates_nonempty: "xs \<noteq> [] \<Longrightarrow> fst (fisherYates xs t) \<noteq> []"
  using length_fisherYates [of xs t] by (metis length_0_conv)

lemma sortBy_nonempty: "xs \<noteq> [] \<Longrightarrow> sortBy byLastModified xs \<noteq> []"
  using length_sortBy [of xs] by (metis length_0_conv)

lemma shuffleGallery_on:
  assumes g: "elemAt (galleries s) (activeGalleryIndex s) = Some g"
    and ne: "media g \<noteq> []" and off: "\<not> isShuffled g"
  shows "shuffleGallery s =
     s\<lparr>galleries := (galleries s)[nat (activeGalleryIndex s) :=
                       g\<lparr>isShuffled := True, media := fst (fisherYates (media g) (random s))\<rparr>],
       random := snd (fisherYates (media g) (random s)),
       db := put (toData (g\<lparr>isShuffled := True, media := fst (fisherYates (media g) (random s))\<rparr>)) (db s),
       activeMediaIndex := 0\<rparr>"
proof -
  let ?g' = "g\<lparr>isShuffled := True, media := fst (fisherYates (media g) (random s))\<rparr>"
  have e: "elemAt ((galleries s)[nat (activeGalleryIndex s) := ?g']) (activeGalleryIndex s) = Some ?g'"
    using g by (rule elemAt_update)
  have n: "fst (fisherYates (media g) (random s)) \<noteq> []"
    using ne by (rule fisherYates_nonempty)
  show ?thesis
    using ne off n
    by (simp add: shuffleGallery_def g Let_def case_prod_beta saveGallery_def displayMedia_def e)
qed

lemma shuffleGallery_off:
  assumes g: "elemAt (galleries s) (activeGalleryIndex s) = Some g"
    and ne: "media g \<noteq> []" and on: "isShuffled g"
  shows "shuffleGallery s =
     s\<lparr>galleries := (galleries s)[nat (activeGalleryIndex s) :=
                       g\<lparr>isShuffled := False, media := sortBy byLastModified (media g)\<rparr>],
       db := put (toData (g\<lparr>isShuffled := False, media := sortBy byLastModified (media g)\<rparr>)) (db s),
       activeMediaIndex := 0\<rparr>"
proof -
  let ?g' = "g\<lparr>isShuffled := False, media := sortBy byLastModified (media g)\<rparr>"
  have e: "elemAt ((galleries s)[nat (activeGalleryIndex s) := ?g']) (activeGalleryIndex s) = Some ?g'"
    using g by (rule elemAt_update)
  have n: "sortBy byLastModified (media g) \<noteq> []"
    using ne by (rule sortBy_nonempty)
  show ?thesis
    using ne on n
    by (simp add: shuffleGallery_def g Let_def saveGallery_def displayMedia_def e)
qed

subsection \<open>Loading the stored galleries\<close>
















text \<open>
  A permission request that rejects is not a refusal: it ends the loading. Here the
  request for folder 12 rejects; the records of folders 13 and 11 come after it and are
  not loaded, though their permission is granted.
\<close>

lemma loadFromStorage_rejected:
  "galleries (loadFromStorage
      (selectiveHost\<lparr>requestPermission := (\<lambda>dir w. Inl (DOMException ''SecurityError''))\<rparr>)
      storedState) = []"
  by (simp add: loadFromStorage_def loadGalleries_def selectiveHost_def storedState_def
      emptyState_def sortBy_def byOrder_def orderOr0_def verifyPermission_def)

subsection \<open>Object URLs\<close>

lemma objectURLs_loadMedia: "objectURLs s \<subseteq> objectURLs (snd (loadMedia h g s))"
proof (cases "fst (verifyPermission h (directoryHandle g) True s) = Inr True")
  case True
  have "objectURLs s = objectURLs (snd (verifyPermission h (directoryHandle g) True s))"
    by (simp add: objectURLs_verifyPermission)
  also have "\<dots> \<subseteq> objectURLs (snd (collectMedia (scanDirectoryRecursive (folder h (directoryHandle g)) [])
       (snd (verifyPermission h (directoryHandle g) True s))))"
    by (rule objectURLs_collectMedia)
  finally show ?thesis using True by (simp add: loadMedia_granted Let_def)
next
  case False
  then show ?thesis by (simp add: loadMedia_refused objectURLs_verifyPermission)
qed

lemma closeGallery_revokes:
  assumes "closeGallery i s = Inr s'" and "elemAt (galleries s) i = Some g"
  shows "objectURLs s' = objectURLs s - url ` set (media g)"
  using assms
  by (auto simp: closeGallery_def Let_def deleteGallery_def objectURLs_selectGallery
      split: if_splits)

lemma rescanActive_keeps:
  "objectURLs s \<subseteq> objectURLs (rescanActive h s)"
proof (cases "elemAt (galleries s) (activeGalleryIndex s)")
  case None
  then show ?thesis by (simp add: rescanActive_def)
next
  case (Some g)
  obtain g' s1 where l: "loadMedia h g s = (g', s1)" by force
  have "objectURLs s \<subseteq> objectURLs s1" using objectURLs_loadMedia [of s h g] by (simp add: l)
  then show ?thesis
    by (simp add: rescanActive_def Some l displayMedia_def split: option.splits)
qed

section \<open>The claims\<close>

subsection \<open>C1: dropping a tab on another\<close>



subsection \<open>C2: steps in random mode\<close>



subsection \<open>C3: the order of the media after a scan\<close>

text \<open>
  C3. When the permission check passes, \<open>loadMedia\<close> collects one media item for each
  readable entry of the scan. With \<open>isShuffled\<close> false the media list is these items
  most recently modified first, items of the same time in the order of the scan; three
  items with times 100, 300 and 200 come out second, third, first. With \<open>isShuffled\<close> true
  the media list is the result of the shuffle loop on that sorted list with the numbers
  of \<open>Math.random\<close>: a permutation of the items, and every permutation is the result for
  some numbers.
\<close>

theorem loadMedia_order:
  assumes "fst (verifyPermission h (directoryHandle g) True s) = Inr True"
  shows "\<exists>ms. map describe ms = readable (scanDirectoryRecursive (folder h (directoryHandle g)) [])
     \<and> (\<not> isShuffled g \<longrightarrow>
          descending (media (fst (loadMedia h g s)))
          \<and> mset (media (fst (loadMedia h g s))) = mset ms
          \<and> (\<forall>t. filter (\<lambda>m. lastModified m = t) (media (fst (loadMedia h g s)))
                 = filter (\<lambda>m. lastModified m = t) ms)
          \<and> (\<forall>a b c. ms = [a, b, c] \<and> lastModified a = 100 \<and> lastModified b = 300
                 \<and> lastModified c = 200 \<longrightarrow> media (fst (loadMedia h g s)) = [b, c, a]))
     \<and> (isShuffled g \<longrightarrow>
          (\<exists>sorted. descending sorted \<and> mset sorted = mset ms
              \<and> (\<forall>t. filter (\<lambda>m. lastModified m = t) sorted = filter (\<lambda>m. lastModified m = t) ms)
              \<and> media (fst (loadMedia h g s)) = fst (fisherYates sorted (random s))
              \<and> random (snd (loadMedia h g s)) = snd (fisherYates sorted (random s)))
          \<and> mset (media (fst (loadMedia h g s))) = mset ms
          \<and> (\<forall>ys. mset ys = mset ms \<longrightarrow>
                (\<exists>t. media (fst (loadMedia h g (s\<lparr>random := t\<rparr>))) = ys)))"
proof -
  let ?scan = "scanDirectoryRecursive (folder h (directoryHandle g)) []"
  let ?s1 = "snd (verifyPermission h (directoryHandle g) True s)"
  let ?c = "collectMedia ?scan ?s1"
  let ?ms = "fst ?c"
  let ?sorted = "sortBy byLastModified ?ms"
  have rnd: "random (snd ?c) = random s"
    by (simp add: random_collectMedia random_verifyPermission)
  have load: "loadMedia h g s =
      (if isShuffled g
       then (g\<lparr>media := fst (fisherYates ?sorted (random s))\<rparr>,
             (snd ?c)\<lparr>random := snd (fisherYates ?sorted (random s))\<rparr>)
       else (g\<lparr>media := ?sorted\<rparr>, snd ?c))"
    using loadMedia_granted [OF assms] by (simp add: Let_def rnd)
  have d: "map describe ?ms = readable ?scan" by (rule describe_collectMedia)
  have example: "\<forall>a b c. ?ms = [a, b, c] \<and> lastModified a = 100 \<and> lastModified b = 300
                 \<and> lastModified c = 200 \<longrightarrow> ?sorted = [b, c, a]"
    by (auto simp: sortBy_def byLastModified_def)
  have plain: "\<not> isShuffled g \<longrightarrow>
          descending (media (fst (loadMedia h g s)))
          \<and> mset (media (fst (loadMedia h g s))) = mset ?ms
          \<and> (\<forall>t. filter (\<lambda>m. lastModified m = t) (media (fst (loadMedia h g s)))
                 = filter (\<lambda>m. lastModified m = t) ?ms)
          \<and> (\<forall>a b c. ?ms = [a, b, c] \<and> lastModified a = 100 \<and> lastModified b = 300
                 \<and> lastModified c = 200 \<longrightarrow> media (fst (loadMedia h g s)) = [b, c, a])"
    using example by (simp add: load descending_sortBy mset_sortBy stable_sortBy)
  have reach: "\<forall>ys. mset ys = mset ?ms \<longrightarrow>
                (\<exists>t. isShuffled g \<longrightarrow> media (fst (loadMedia h g (s\<lparr>random := t\<rparr>))) = ys)"
  proof (intro allI impI)
    fix ys assume "mset ys = mset ?ms"
    then have "mset ys = mset ?sorted" by (simp add: mset_sortBy)
    then obtain t where t: "fst (fisherYates ?sorted t) = ys"
      using fisherYates_reaches by blast
    have v: "fst (verifyPermission h (directoryHandle g) True (s\<lparr>random := t\<rparr>)) = Inr True"
      using assms fst_verifyPermission_state by metis
    have "isShuffled g \<longrightarrow> media (fst (loadMedia h g (s\<lparr>random := t\<rparr>))) = ys"
      using loadMedia_granted [OF v]
      by (simp add: Let_def snd_verifyPermission_random fst_collectMedia_random
          random_snd_collectMedia_random t)
    then show "\<exists>t. isShuffled g \<longrightarrow> media (fst (loadMedia h g (s\<lparr>random := t\<rparr>))) = ys" ..
  qed
  have shuffled: "isShuffled g \<longrightarrow>
          (\<exists>sorted. descending sorted \<and> mset sorted = mset ?ms
              \<and> (\<forall>t. filter (\<lambda>m. lastModified m = t) sorted = filter (\<lambda>m. lastModified m = t) ?ms)
              \<and> media (fst (loadMedia h g s)) = fst (fisherYates sorted (random s))
              \<and> random (snd (loadMedia h g s)) = snd (fisherYates sorted (random s)))
          \<and> mset (media (fst (loadMedia h g s))) = mset ?ms
          \<and> (\<forall>ys. mset ys = mset ?ms \<longrightarrow>
                (\<exists>t. media (fst (loadMedia h g (s\<lparr>random := t\<rparr>))) = ys))"
  proof (intro impI conjI)
    assume sh: "isShuffled g"
    show "\<exists>sorted. descending sorted \<and> mset sorted = mset ?ms
              \<and> (\<forall>t. filter (\<lambda>m. lastModified m = t) sorted = filter (\<lambda>m. lastModified m = t) ?ms)
              \<and> media (fst (loadMedia h g s)) = fst (fisherYates sorted (random s))
              \<and> random (snd (loadMedia h g s)) = snd (fisherYates sorted (random s))"
      by (rule exI [of _ ?sorted])
         (simp add: load sh descending_sortBy mset_sortBy stable_sortBy)
    show "mset (media (fst (loadMedia h g s))) = mset ?ms"
      by (simp add: load sh mset_fisherYates mset_sortBy)
    show "\<forall>ys. mset ys = mset ?ms \<longrightarrow>
                (\<exists>t. media (fst (loadMedia h g (s\<lparr>random := t\<rparr>))) = ys)"
      using reach sh by blast
  qed
  show ?thesis
    using d plain shuffled by blast
qed

theorem loadMedia_order_witness:
  "fst (verifyPermission (grantingHost exampleFolder) (directoryHandle (Gallery 1 ''a'' 11)) True emptyState)
     = Inr True
   \<and> \<not> isShuffled (Gallery 1 ''a'' 11)
   \<and> map describe (media (fst (loadMedia (grantingHost exampleFolder) (Gallery 1 ''a'' 11) emptyState)))
       = [(''B.PNG'', ''sub/B.PNG'', Image, 300), (''C.webm'', ''C.webm'', Video, 200),
          (''A.jpg'', ''A.jpg'', Image, 100)]
   \<and> isShuffled ((Gallery 1 ''a'' 11)\<lparr>isShuffled := True\<rparr>)
   \<and> mset (map describe
        (media (fst (loadMedia (grantingHost exampleFolder) ((Gallery 1 ''a'' 11)\<lparr>isShuffled := True\<rparr>)
                       emptyState))))
       = {#(''B.PNG'', ''sub/B.PNG'', Image, 300), (''C.webm'', ''C.webm'', Video, 200),
           (''A.jpg'', ''A.jpg'', Image, 100)#}"
proof -
  let ?h = "grantingHost exampleFolder"
  let ?g = "Gallery 1 ''a'' 11"
  let ?g' = "(Gallery 1 ''a'' 11)\<lparr>isShuffled := True\<rparr>"
  have p: "fst (verifyPermission ?h (directoryHandle ?g) True emptyState) = Inr True"
    and p': "fst (verifyPermission ?h (directoryHandle ?g') True emptyState) = Inr True"
    by (simp_all add: verifyPermission_def grantingHost_def)
  have ns: "\<not> isShuffled ?g" and sh: "isShuffled ?g'" by (simp_all add: Gallery_def)
  have f: "folder ?h (directoryHandle ?g) = exampleFolder" "folder ?h (directoryHandle ?g') = exampleFolder"
    by (simp_all add: grantingHost_def)
  have three: "\<And>ms. map describe ms = [(''A.jpg'', ''A.jpg'', Image, 100),
        (''B.PNG'', ''sub/B.PNG'', Image, 300), (''C.webm'', ''C.webm'', Video, 200)] \<Longrightarrow>
      \<exists>a b c. ms = [a, b, c] \<and> lastModified a = 100 \<and> lastModified b = 300 \<and> lastModified c = 200
        \<and> describe a = (''A.jpg'', ''A.jpg'', Image, 100)
        \<and> describe b = (''B.PNG'', ''sub/B.PNG'', Image, 300)
        \<and> describe c = (''C.webm'', ''C.webm'', Video, 200)"
    by (auto simp: describe_def map_eq_Cons_conv)
  from loadMedia_order [OF p] ns obtain ms where
    ms: "map describe ms = readable (scanDirectoryRecursive exampleFolder [])"
    and ex: "\<forall>a b c. ms = [a, b, c] \<and> lastModified a = 100 \<and> lastModified b = 300
                 \<and> lastModified c = 200 \<longrightarrow> media (fst (loadMedia ?h ?g emptyState)) = [b, c, a]"
    unfolding f by blast
  from three [OF ms [unfolded scan_exampleFolder]] obtain a b c where
    abc: "ms = [a, b, c]" "lastModified a = 100" "lastModified b = 300" "lastModified c = 200"
      "describe a = (''A.jpg'', ''A.jpg'', Image, 100)"
      "describe b = (''B.PNG'', ''sub/B.PNG'', Image, 300)"
      "describe c = (''C.webm'', ''C.webm'', Video, 200)"
    by blast
  with ex have "media (fst (loadMedia ?h ?g emptyState)) = [b, c, a]" by blast
  then have plain: "map describe (media (fst (loadMedia ?h ?g emptyState)))
       = [(''B.PNG'', ''sub/B.PNG'', Image, 300), (''C.webm'', ''C.webm'', Video, 200),
          (''A.jpg'', ''A.jpg'', Image, 100)]"
    using abc by simp
  from loadMedia_order [OF p'] sh obtain ms' where
    ms': "map describe ms' = readable (scanDirectoryRecursive exampleFolder [])"
    and perm: "mset (media (fst (loadMedia ?h ?g' emptyState))) = mset ms'"
    unfolding f by blast
  have "mset (map describe (media (fst (loadMedia ?h ?g' emptyState)))) = mset (map describe ms')"
    using perm by (metis mset_map)
  then have shuffled: "mset (map describe (media (fst (loadMedia ?h ?g' emptyState))))
       = {#(''B.PNG'', ''sub/B.PNG'', Image, 300), (''C.webm'', ''C.webm'', Video, 200),
           (''A.jpg'', ''A.jpg'', Image, 100)#}"
    by (simp add: ms' scan_exampleFolder)
  show ?thesis using p ns plain sh shuffled by blast
qed

subsection \<open>C4: shuffle on, then off\<close>




subsection \<open>C5: closing a gallery\<close>

text \<open>
  C5. Closing the gallery at a valid index \<open>i\<close> returns and removes that gallery. When
  \<open>i\<close> was below the active index, the active index goes down by one; when \<open>i\<close> was the
  active index and galleries remain, it becomes \<open>min i (N - 2)\<close>; when \<open>i\<close> was above
  it, it stays; when no gallery remains it is \<open>-1\<close>. The record of the closed gallery is
  deleted from the store and no other record is touched.
\<close>

theorem closeGallery_reselect:
  assumes "0 \<le> i" and "i < int (length (galleries s))"
  shows "\<exists>s'. closeGallery i s = Inr s'
     \<and> galleries s' = take (nat i) (galleries s) @ drop (Suc (nat i)) (galleries s)
     \<and> (i < activeGalleryIndex s \<and> 1 < length (galleries s) \<longrightarrow>
          activeGalleryIndex s' = activeGalleryIndex s - 1)
     \<and> (i = activeGalleryIndex s \<and> 0 < length (galleries s) - 1 \<longrightarrow>
          activeGalleryIndex s' = min i (int (length (galleries s)) - 2))
     \<and> (activeGalleryIndex s < i \<and> 1 < length (galleries s) \<longrightarrow>
          activeGalleryIndex s' = activeGalleryIndex s)
     \<and> (length (galleries s) = 1 \<longrightarrow> activeGalleryIndex s' = - 1)
     \<and> get (db s') (gid (galleries s ! nat i)) = None
     \<and> (\<forall>k. k \<noteq> gid (galleries s ! nat i) \<longrightarrow> get (db s') k = get (db s) k)"
proof -
  let ?g = "galleries s ! nat i"
  have g: "elemAt (galleries s) i = Some ?g"
    using assms by (simp add: elemAt_def)
  have len: "length (take (nat i) (galleries s) @ drop (Suc (nat i)) (galleries s)) = length (galleries s) - 1"
    using assms by (simp add: min_def)
  show ?thesis
    using assms len
    by (auto simp: closeGallery_def g Let_def deleteGallery_def spliceRemove_nat
        activeGalleryIndex_selectGallery galleries_selectGallery db_selectGallery get_filter
        simp del: length_append length_take length_drop)
qed

theorem closeGallery_reselect_witness:
  "(0::int) \<le> 1 \<and> 1 < int (length (galleries threeGalleries))
   \<and> (\<exists>s'. closeGallery 1 threeGalleries = Inr s' \<and> map gid (galleries s') = [1, 3]
          \<and> activeGalleryIndex s' = 1 \<and> get (db s') 2 = None)"
proof -
  have h1: "(0::int) \<le> 1" by simp
  have h2: "1 < int (length (galleries threeGalleries))"
    by (simp add: threeGalleries_def emptyState_def)
  show ?thesis
    using h1 h2 closeGallery_reselect [OF h1 h2]
    by (auto simp: threeGalleries_def emptyState_def Gallery_def)
qed

subsection \<open>C6: loading the stored galleries\<close>



subsection \<open>C7: the permission check\<close>

text \<open>
  C7, as stated, fails: \<open>verifyPermission\<close> has no \<open>try\<close>, so when the permission state
  is \<open>prompt\<close> and the request rejects, the call throws instead of giving \<open>false\<close>.
\<close>

theorem verifyPermission_throws:
  "fst (verifyPermission promptingHost 7 True emptyState) = Inl (DOMException ''SecurityError'')"
  by (simp add: verifyPermission_def promptingHost_def)

text \<open>
  C7, amended. \<open>verifyPermission\<close> asks for the current state in the requested mode. It
  returns \<open>true\<close> exactly when that state is \<open>granted\<close>, or it is another state and the
  request to the user is granted; it returns \<open>false\<close> exactly when both calls resolve and
  neither is granted; it throws exactly when the query rejects, or the query is not
  granted and the request rejects. The user is asked once when the query resolves to a
  state other than \<open>granted\<close>, and not at all otherwise; nothing else changes.
\<close>

theorem verifyPermission_result:
  "(fst (verifyPermission h dir w s) = Inr True \<longleftrightarrow>
      queryPermission h dir w = Inr granted \<or>
      ((\<exists>q. queryPermission h dir w = Inr q \<and> q \<noteq> granted) \<and> requestPermission h dir w = Inr granted))
   \<and> (fst (verifyPermission h dir w s) = Inr False \<longleftrightarrow>
      (\<exists>q r. queryPermission h dir w = Inr q \<and> q \<noteq> granted \<and>
             requestPermission h dir w = Inr r \<and> r \<noteq> granted))
   \<and> ((\<exists>e. fst (verifyPermission h dir w s) = Inl e) \<longleftrightarrow>
      (\<exists>e. queryPermission h dir w = Inl e) \<or>
      ((\<exists>q. queryPermission h dir w = Inr q \<and> q \<noteq> granted) \<and> (\<exists>e. requestPermission h dir w = Inl e)))
   \<and> snd (verifyPermission h dir w s) =
       s\<lparr>requested := requested s @
            (if \<exists>q. queryPermission h dir w = Inr q \<and> q \<noteq> granted then [(dir, w)] else [])\<rparr>"
  by (cases "queryPermission h dir w"; cases "requestPermission h dir w")
     (auto simp: verifyPermission_def Let_def)

subsection \<open>C8: the name of an imported file\<close>




subsection \<open>C9: object URLs after a rescan\<close>

text \<open>
  C9 holds for \<open>closeGallery\<close> and fails for a rescan: \<open>loadMedia\<close> empties the media list
  without revoking its URLs. The gallery holds the URLs 1, 2 and 0; after the rescan
  that follows a drop its items have the new URLs 4, 5 and 3, and the URLs 0, 1 and 2
  are still registered.
\<close>

theorem rescan_keeps_object_urls:
  "map url (media (galleries randomState ! 0)) = [1, 2, 0]
   \<and> objectURLs randomState = {0, 1, 2}
   \<and> map url (media (galleries (rescanActive (grantingHost exampleFolder) randomState) ! 0)) = [4, 5, 3]
   \<and> objectURLs (rescanActive (grantingHost exampleFolder) randomState) = {0, 1, 2, 3, 4, 5}"
proof -
  have scan: "scanDirectoryRecursive exampleFolder [] =
     [\<lparr>fe_name = ''A.jpg'', fe_getFile = Inr 100, fe_path = ''A.jpg'', fe_type = Image\<rparr>,
      \<lparr>fe_name = ''B.PNG'', fe_getFile = Inr 300, fe_path = ''sub/B.PNG'', fe_type = Image\<rparr>,
      \<lparr>fe_name = ''D.gif'', fe_getFile = Inl (DOMException ''NotReadableError''),
        fe_path = ''sub/D.gif'', fe_type = Image\<rparr>,
      \<lparr>fe_name = ''C.webm'', fe_getFile = Inr 200, fe_path = ''C.webm'', fe_type = Video\<rparr>]"
    by (simp add: exampleFolder_def entryPath_def imageFormats_def videoFormats_def
        toLowerCase_def lowerChar_def Let_def)
  show ?thesis
    by (simp add: randomState_def emptyState_def Gallery_def item_def rescanActive_def elemAt_def
        loadMedia_def verifyPermission_def grantingHost_def scan sortBy_def byLastModified_def
        displayMedia_def)
      (auto)
qed

subsection \<open>C10: a toggle of the shuffle permutes the media\<close>

text \<open>
  C10. For an active gallery with media, a toggle of the shuffle, on or off, leaves in
  the active place a gallery with the same items (as a multiset), the same id, name,
  folder and \<open>order\<close>, and the opposite \<open>isShuffled\<close>; the other galleries are as before.
\<close>

theorem shuffleGallery_permutation:
  assumes g: "elemAt (galleries s) (activeGalleryIndex s) = Some g" and ne: "media g \<noteq> []"
  shows "\<exists>g'. elemAt (galleries (shuffleGallery s)) (activeGalleryIndex (shuffleGallery s)) = Some g'
     \<and> activeGalleryIndex (shuffleGallery s) = activeGalleryIndex s
     \<and> mset (media g') = mset (media g)
     \<and> gid g' = gid g \<and> name g' = name g \<and> directoryHandle g' = directoryHandle g
     \<and> order g' = order g \<and> isShuffled g' = (\<not> isShuffled g)
     \<and> length (galleries (shuffleGallery s)) = length (galleries s)
     \<and> (\<forall>k < length (galleries s). int k \<noteq> activeGalleryIndex s \<longrightarrow>
           galleries (shuffleGallery s) ! k = galleries s ! k)"
proof (cases "isShuffled g")
  case False
  let ?g' = "g\<lparr>isShuffled := True, media := fst (fisherYates (media g) (random s))\<rparr>"
  have e: "elemAt ((galleries s)[nat (activeGalleryIndex s) := ?g']) (activeGalleryIndex s) = Some ?g'"
    using g by (rule elemAt_update)
  have a: "0 \<le> activeGalleryIndex s" using g by (auto simp: elemAt_def split: if_splits)
  show ?thesis
    apply (rule exI [of _ ?g'])
    using False a by (auto simp: shuffleGallery_on [OF g ne False] e mset_fisherYates)
next
  case True
  let ?g' = "g\<lparr>isShuffled := False, media := sortBy byLastModified (media g)\<rparr>"
  have e: "elemAt ((galleries s)[nat (activeGalleryIndex s) := ?g']) (activeGalleryIndex s) = Some ?g'"
    using g by (rule elemAt_update)
  have a: "0 \<le> activeGalleryIndex s" using g by (auto simp: elemAt_def split: if_splits)
  show ?thesis
    apply (rule exI [of _ ?g'])
    using True a by (auto simp: shuffleGallery_off [OF g ne True] e mset_sortBy)
qed

theorem shuffleGallery_permutation_witness:
  "elemAt (galleries randomState) (activeGalleryIndex randomState) = Some (galleries randomState ! 0)
   \<and> media (galleries randomState ! 0) \<noteq> []
   \<and> (\<exists>g'. elemAt (galleries (shuffleGallery randomState)) 0 = Some g'
          \<and> mset (media g') = mset (media (galleries randomState ! 0))
          \<and> gid g' = 1 \<and> name g' = ''a'' \<and> directoryHandle g' = 11 \<and> isShuffled g')
   \<and> elemAt (galleries shuffledState) (activeGalleryIndex shuffledState) = Some (galleries shuffledState ! 0)
   \<and> media (galleries shuffledState ! 0) \<noteq> []
   \<and> (\<exists>g'. elemAt (galleries (shuffleGallery shuffledState)) 0 = Some g'
          \<and> mset (media g') = mset (media (galleries shuffledState ! 0))
          \<and> gid g' = 1 \<and> name g' = ''a'' \<and> directoryHandle g' = 11 \<and> \<not> isShuffled g')"
proof -
  have r: "elemAt (galleries randomState) (activeGalleryIndex randomState) = Some (galleries randomState ! 0)"
    "media (galleries randomState ! 0) \<noteq> []"
    by (simp_all add: randomState_def emptyState_def elemAt_def Gallery_def)
  have rv: "activeGalleryIndex randomState = 0" "gid (galleries randomState ! 0) = 1"
    "name (galleries randomState ! 0) = ''a''" "directoryHandle (galleries randomState ! 0) = 11"
    "\<not> isShuffled (galleries randomState ! 0)"
    by (simp_all add: randomState_def emptyState_def Gallery_def)
  have q: "elemAt (galleries shuffledState) (activeGalleryIndex shuffledState) = Some (galleries shuffledState ! 0)"
    "media (galleries shuffledState ! 0) \<noteq> []"
    by (simp_all add: shuffledState_def emptyState_def elemAt_def Gallery_def)
  have qv: "activeGalleryIndex shuffledState = 0" "gid (galleries shuffledState ! 0) = 1"
    "name (galleries shuffledState ! 0) = ''a''" "directoryHandle (galleries shuffledState ! 0) = 11"
    "isShuffled (galleries shuffledState ! 0)"
    by (simp_all add: shuffledState_def emptyState_def Gallery_def)
  have a: "\<exists>g'. elemAt (galleries (shuffleGallery randomState)) 0 = Some g'
          \<and> mset (media g') = mset (media (galleries randomState ! 0))
          \<and> gid g' = 1 \<and> name g' = ''a'' \<and> directoryHandle g' = 11 \<and> isShuffled g'"
    using shuffleGallery_permutation [OF r] by (auto simp: rv)
  have b: "\<exists>g'. elemAt (galleries (shuffleGallery shuffledState)) 0 = Some g'
          \<and> mset (media g') = mset (media (galleries shuffledState ! 0))
          \<and> gid g' = 1 \<and> name g' = ''a'' \<and> directoryHandle g' = 11 \<and> \<not> isShuffled g'"
    using shuffleGallery_permutation [OF q] by (auto simp: qv)
  show ?thesis using r q a b by blast
qed

end
